theory Spec2Isabelle
  imports Main "HOL-Library.Word" "HOL-Library.Signed_Division"
begin

section \<open>The Luhn checksum (function luhnAlgorithm)\<close>

text \<open>
  Go strings are byte sequences and \<open>cardNumber[i]\<close> is a byte, so a card number is a
  \<^typ>\<open>string\<close> (a list of 8-bit characters). Go's \<open>int\<close> is taken at 64 bits, as on
  amd64 and arm64: \<open>digit\<close> and \<open>total\<close> are \<^typ>\<open>64 word\<close>, read as two's complement
  where the code compares or takes a remainder.
\<close>

text \<open>
  \<open>int(cardNumber[i] - '0')\<close>: the subtraction is on bytes (the constant \<open>'0'\<close> is
  converted to the byte 48) and wraps modulo 256; the conversion to \<open>int\<close> extends the
  unsigned byte.
\<close>

definition digitOf :: "char \<Rightarrow> 64 word" where
  "digitOf c = ucast (of_char c - of_char CHR ''0'' :: 8 word)"

text \<open>
  Go's \<open>%\<close> on \<open>int\<close>: the remainder of the division that truncates towards zero, so its
  sign is that of the dividend.
\<close>

definition goRem :: "64 word \<Rightarrow> 64 word \<Rightarrow> 64 word" where
  "goRem a b = word_of_int (sint a smod sint b)"

text \<open>
  The loop \<open>for i := len(cardNumber) - 1; i >= 0; i-- { ... }\<close> with its two variables
  \<open>total\<close> (here \<open>tot\<close>) and \<open>isSecondDigit\<close>. The index \<open>i\<close> runs from
  \<open>len(cardNumber) - 1\<close> down to \<open>-1\<close> and is an \<^typ>\<open>int\<close>. Indexing a string out of
  range panics in Go: that is the result \<open>None\<close>.
\<close>

function luhnLoop :: "string \<Rightarrow> int \<Rightarrow> 64 word \<Rightarrow> bool \<Rightarrow> 64 word option" where
  "luhnLoop cardNumber i tot isSecondDigit =
     (if i \<ge> 0 then
        (if nat i < length cardNumber then
           let digit = digitOf (cardNumber ! nat i);
               digit = (if isSecondDigit then
                          let digit = digit * 2
                          in if 9 <s digit then digit - 9 else digit
                        else digit)
           in luhnLoop cardNumber (i - 1) (tot + digit) (\<not> isSecondDigit)
         else None)
      else Some tot)"
  by pat_completeness auto
termination
  by (relation "measure (\<lambda>(cardNumber, i, tot, isSecondDigit). nat (i + 1))") auto

declare luhnLoop.simps [simp del]

definition luhnAlgorithm :: "string \<Rightarrow> bool option" where
  "luhnAlgorithm cardNumber =
     map_option (\<lambda>tot. goRem tot 10 = 0)
       (luhnLoop cardNumber (int (length cardNumber) - 1) 0 False)"

subsection \<open>The reference procedure of the specification\<close>

text \<open>
  The specification's words. The digit value of a character is its code minus the code of
  \<open>'0'\<close>, a difference of integers: 0 to 9 for the decimal digits, negative for the
  characters below \<open>'0'\<close>.
\<close>

definition charOffset :: "char \<Rightarrow> int" where
  "charOffset c = of_char c - of_char CHR ''0''"

text \<open>
  The procedure traverses from the last character to the first; the rightmost character
  is position 1; at positions 2, 4, 6, ... the digit value is doubled and 9 is subtracted
  when the doubled value exceeds 9; all values are summed, over the mathematical integers.
  The digit value is a parameter \<open>dv\<close>, so that the same procedure can be run with another
  conversion of the characters.
\<close>

definition refTerm :: "(char \<Rightarrow> int) \<Rightarrow> nat \<Rightarrow> char \<Rightarrow> int" where
  "refTerm dv p c =
     (if even p then (if 2 * dv c > 9 then 2 * dv c - 9 else 2 * dv c)
      else dv c)"

definition refSum :: "(char \<Rightarrow> int) \<Rightarrow> string \<Rightarrow> int" where
  "refSum dv s =
     sum_list (map (\<lambda>(p, c). refTerm dv p c) (zip [1 ..< Suc (length s)] (rev s)))"

definition refTotal :: "string \<Rightarrow> int" where
  "refTotal s = refSum charOffset s"

text \<open>
  The offset from \<open>'0'\<close> taken modulo 256: the offset itself for a character at or above
  \<open>'0'\<close>, the offset plus 256 for a character below it.
\<close>

definition byteOffset :: "char \<Rightarrow> int" where
  "byteOffset c = charOffset c mod 256"

subsection \<open>The loop's contributions as natural numbers\<close>

text \<open>
  What one iteration adds to the total, and what the iterations over a list of characters
  (in the order of the traversal) add together, without the word arithmetic.
\<close>

definition digitN :: "char \<Rightarrow> nat" where
  "digitN c = (of_char c + 208) mod 256"

definition stepN :: "bool \<Rightarrow> char \<Rightarrow> nat" where
  "stepN dbl c =
     (if dbl then (if 9 < 2 * digitN c then 2 * digitN c - 9 else 2 * digitN c)
      else digitN c)"

fun sumN :: "bool \<Rightarrow> string \<Rightarrow> nat" where
  "sumN dbl [] = 0"
| "sumN dbl (c # cs) = stepN dbl c + sumN (\<not> dbl) cs"

section \<open>The HTTP handler (function creditCardValidator)\<close>

text \<open>The struct \<open>Response\<close> and the anonymous struct the payload is decoded into.\<close>

record Response =
  Valid :: bool

record CardNumber =
  Number :: string

text \<open>
  A request: its method and its body. The body is a reader that decoding consumes, so it
  is a state of some type \<open>'b\<close> that the handler passes on.
\<close>

record 'b Request =
  Method :: string
  Body :: 'b

text \<open>
  Modelled from the spec: package net/http is not part of the repository. A response
  writer holds the response headers, the status code once it is written, and the body
  written so far. The first write without a status code writes status 200 (the implicit
  default); \<open>http.Error\<close> replies with the given status code and the given message as a
  plain-text body.
\<close>

record ResponseWriter =
  header :: "string \<rightharpoonup> string"
  statusCode :: "nat option"
  written :: string

definition newResponseWriter :: ResponseWriter where
  "newResponseWriter = \<lparr>header = Map.empty, statusCode = None, written = []\<rparr>"

definition MethodPost :: string where
  "MethodPost = ''POST''"

definition StatusOK :: nat where
  "StatusOK = 200"

definition StatusBadRequest :: nat where
  "StatusBadRequest = 400"

definition StatusMethodNotAllowed :: nat where
  "StatusMethodNotAllowed = 405"

definition StatusInternalServerError :: nat where
  "StatusInternalServerError = 500"

definition headerSet :: "ResponseWriter \<Rightarrow> string \<Rightarrow> string \<Rightarrow> ResponseWriter" where
  "headerSet w k v = w\<lparr>header := (header w)(k \<mapsto> v)\<rparr>"

definition writeHeader :: "ResponseWriter \<Rightarrow> nat \<Rightarrow> ResponseWriter" where
  "writeHeader w code = (if statusCode w = None then w\<lparr>statusCode := Some code\<rparr> else w)"

definition writerWrite :: "ResponseWriter \<Rightarrow> string \<Rightarrow> ResponseWriter" where
  "writerWrite w bs = (let w = writeHeader w StatusOK in w\<lparr>written := written w @ bs\<rparr>)"

definition httpError :: "ResponseWriter \<Rightarrow> string \<Rightarrow> nat \<Rightarrow> ResponseWriter" where
  "httpError w msg code =
     writerWrite (writeHeader (headerSet w ''Content-Type'' ''text/plain; charset=utf-8'') code) msg"

text \<open>
  Modelled from the spec: package encoding/json is not part of the repository. Serialising
  a \<open>Response\<close> gives the JSON object with the single boolean field \<open>valid\<close> and does not
  fail.
\<close>

datatype jsonError = JsonError

definition jsonMarshal :: "Response \<Rightarrow> jsonError + string" where
  "jsonMarshal r = Inr (''{\"valid\":'' @ (if Valid r then ''true'' else ''false'') @ ''}'')"

text \<open>
  The handler. The JSON decoder and the serialiser are parameters: \<open>decode\<close> reads the
  body into the struct it is given and returns the error (if any), the struct and the
  rest of the body; \<open>marshal\<close> returns the bytes or an error. The handler returns the
  writer and the request as it leaves them; \<open>None\<close> is a panic of the validator.
\<close>

definition creditCardValidator ::
  "('b \<Rightarrow> CardNumber \<Rightarrow> jsonError option \<times> CardNumber \<times> 'b) \<Rightarrow>
   (Response \<Rightarrow> jsonError + string) \<Rightarrow>
   ResponseWriter \<Rightarrow> 'b Request \<Rightarrow> (ResponseWriter \<times> 'b Request) option" where
  "creditCardValidator decode marshal writer request =
     (if Method request \<noteq> MethodPost then
        Some (httpError writer ''Invalid request method'' StatusMethodNotAllowed, request)
      else
        let cardNumber = \<lparr>Number = ''''\<rparr>;
            (err, cardNumber, body) = decode (Body request) cardNumber;
            request = request\<lparr>Body := body\<rparr>
        in if err \<noteq> None then
             Some (httpError writer ''Invalid JSON payload'' StatusBadRequest, request)
           else
             case luhnAlgorithm (Number cardNumber) of
               None \<Rightarrow> None
             | Some isValid \<Rightarrow>
                 let response = \<lparr>Valid = isValid\<rparr>
                 in case marshal response of
                      Inl err \<Rightarrow>
                        Some (httpError writer ''Error creating response''
                                StatusInternalServerError, request)
                    | Inr jsonResponse \<Rightarrow>
                        Some (writerWrite (headerSet writer ''Content-Type'' ''application/json'')
                                jsonResponse, request))"

text \<open>
  A decoder for running the handler on concrete requests: it accepts two payloads, whose
  \<open>number\<close> fields are \<open>4003600000000015\<close> and \<open>4003-6000\<close>, and reports every
  other body as undecodable.
\<close>

definition decodeExample ::
  "string \<Rightarrow> CardNumber \<Rightarrow> jsonError option \<times> CardNumber \<times> string" where
  "decodeExample b c =
     (if b = ''{\"number\": \"4003600000000015\"}''
      then (None, c\<lparr>Number := ''4003600000000015''\<rparr>, [])
      else if b = ''{\"number\": \"4003-6000\"}''
      then (None, c\<lparr>Number := ''4003-6000''\<rparr>, [])
      else (Some JsonError, c, []))"

section \<open>Word arithmetic of the loop\<close>

lemma unat_byte_sub: "unat (of_char c - of_char CHR ''0'' :: 8 word) = digitN c"
proof -
  have "(of_char c - of_char CHR ''0'' :: 8 word) = of_nat (of_char c + 208)"
    by (simp add: of_nat_of_char)
  then have "unat (of_char c - of_char CHR ''0'' :: 8 word)
      = unat (of_nat (of_char c + 208) :: 8 word)"
    by (simp only:)
  also have "\<dots> = (of_char c + 208) mod 256"
    by (simp only: unat_of_nat) simp
  finally show ?thesis
    by (simp only: digitN_def)
qed

lemma digitOf_nat: "digitOf c = of_nat (digitN c)"
  unfolding digitOf_def unat_byte_sub [symmetric] by simp

lemma digitN_le: "digitN c \<le> 255"
  unfolding digitN_def by (simp add: less_Suc_eq_le [symmetric])

lemma byteOffset_nat: "byteOffset c = int (digitN c)"
proof -
  have "int (digitN c) = (int (of_char c) + 208) mod 256"
    by (simp add: digitN_def zmod_int)
  also have "int (of_char c) + 208 = (int (of_char c) - 48) + 256"
    by simp
  also have "((int (of_char c) - 48) + 256) mod 256 = (int (of_char c) - 48) mod 256"
    by (rule mod_add_self2)
  also have "\<dots> = byteOffset c"
    by (simp add: byteOffset_def charOffset_def of_nat_of_char)
  finally show ?thesis by simp
qed

lemma sint_of_nat64: "n < 2 ^ 63 \<Longrightarrow> sint (of_nat n :: 64 word) = int n"
proof -
  assume "n < 2 ^ 63"
  then have "int n < 2 ^ 63" by simp
  then have "signed_take_bit 63 (int n) = int n"
    by (intro signed_take_bit_int_eq_self) simp_all
  then show ?thesis
    by (simp add: signed_of_nat)
qed

lemma goRem_of_nat:
  assumes "n < 2 ^ 63"
  shows "(goRem (of_nat n) 10 = 0) = (n mod 10 = 0)"
proof -
  have s: "sint (of_nat n :: 64 word) = int n"
    using assms by (rule sint_of_nat64)
  have "int n smod 10 = int (n mod 10)"
    by (simp add: signed_modulo_int_def zmod_int sgn_if)
  then have "goRem (of_nat n) 10 = (of_nat (n mod 10) :: 64 word)"
    by (simp add: goRem_def s)
  moreover have "((of_nat (n mod 10) :: 64 word) = 0) = (n mod 10 = 0)"
  proof -
    have "n mod 10 < 10" by simp
    then have "n mod 10 < 2 ^ 64"
      by (rule less_trans) simp
    then have "unat (of_nat (n mod 10) :: 64 word) = n mod 10"
      by (simp add: unat_of_nat)
    then show ?thesis
      by (metis unat_eq_0 of_nat_0)
  qed
  ultimately show ?thesis by simp
qed

lemma stepW_nat:
  "(if f then let digit = digitOf c * 2 in if 9 <s digit then digit - 9 else digit
    else digitOf c) = of_nat (stepN f c)"
proof -
  have le: "2 * digitN c < 2 ^ 63"
    using digitN_le [of c] by simp
  have dbl: "digitOf c * 2 = of_nat (2 * digitN c)"
    by (simp add: digitOf_nat)
  have cmp: "(9 <s digitOf c * 2) = (9 < 2 * digitN c)"
    unfolding dbl word_sless_alt sint_of_nat64 [OF le] by simp linarith
  have sub: "9 < 2 * digitN c \<Longrightarrow> digitOf c * 2 - 9 = of_nat (2 * digitN c - 9)"
    unfolding dbl by simp
  show ?thesis
  proof (cases f)
    case False
    then show ?thesis by (simp add: stepN_def digitOf_nat)
  next
    case True
    note f = this
    show ?thesis
    proof (cases "9 < 2 * digitN c")
      case True
      with f cmp sub show ?thesis by (simp only: Let_def stepN_def if_True)
    next
      case False
      with f cmp dbl show ?thesis by (simp only: Let_def stepN_def if_True if_False)
    qed
  qed
qed

section \<open>The loop computes the sum of the contributions\<close>

lemma luhnLoop_take:
  "n \<le> length s \<Longrightarrow>
   luhnLoop s (int n - 1) t f = Some (t + of_nat (sumN f (rev (take n s))))"
proof (induction n arbitrary: t f)
  case 0
  show ?case by (subst luhnLoop.simps) simp
next
  case (Suc n)
  then have n: "n < length s" and n': "n \<le> length s" by simp_all
  have "luhnLoop s (int (Suc n) - 1) t f =
        luhnLoop s (int n - 1) (t + of_nat (stepN f (s ! n))) (\<not> f)"
    by (subst luhnLoop.simps) (simp add: n Let_def stepW_nat del: of_nat_mult of_nat_diff)
  also have "\<dots> = Some (t + of_nat (stepN f (s ! n)) + of_nat (sumN (\<not> f) (rev (take n s))))"
    by (rule Suc.IH [OF n'])
  finally show ?case
    by (simp add: take_Suc_conv_app_nth [OF n] add.assoc)
qed

lemma luhnAlgorithm_sum:
  "luhnAlgorithm s = Some (goRem (of_nat (sumN False (rev s))) 10 = 0)"
  using luhnLoop_take [of "length s" s 0 False]
  by (simp add: luhnAlgorithm_def)

lemma stepN_le: "stepN f c \<le> 501"
  using digitN_le [of c] by (auto simp add: stepN_def)

lemma sumN_le: "sumN f cs \<le> 501 * length cs"
proof (induction cs arbitrary: f)
  case Nil
  show ?case by simp
next
  case (Cons c cs)
  show ?case
    using stepN_le [of f c] Cons.IH [of "\<not> f"] by simp
qed

lemma refTerm_nat: "refTerm byteOffset p c = int (stepN (even p) c)"
  by (simp add: refTerm_def stepN_def byteOffset_nat)

lemma ref_zip_nat:
  "sum_list (map (\<lambda>(p, c). refTerm byteOffset p c) (zip [k ..< k + length cs] cs))
     = int (sumN (even k) cs)"
proof (induction cs arbitrary: k)
  case Nil
  show ?case by simp
next
  case (Cons c cs)
  have "k < k + length (c # cs)" by simp
  then have "[k ..< k + length (c # cs)] = k # [Suc k ..< k + length (c # cs)]"
    by (rule upt_conv_Cons)
  moreover have "k + length (c # cs) = Suc k + length cs" by simp
  ultimately have "[k ..< k + length (c # cs)] = k # [Suc k ..< Suc k + length cs]"
    by (simp only:)
  then have "sum_list (map (\<lambda>(p, c). refTerm byteOffset p c)
                        (zip [k ..< k + length (c # cs)] (c # cs)))
      = refTerm byteOffset k c
        + sum_list (map (\<lambda>(p, c). refTerm byteOffset p c)
                      (zip [Suc k ..< Suc k + length cs] cs))"
    by (simp only: zip_Cons_Cons list.map sum_list.Cons prod.case)
  also have "\<dots> = int (stepN (even k) c) + int (sumN (even (Suc k)) cs)"
    by (simp only: Cons.IH [of "Suc k"]) (simp only: refTerm_nat)
  finally show ?case
    by simp
qed

lemma refSum_nat: "refSum byteOffset s = int (sumN False (rev s))"
  using ref_zip_nat [of 1 "rev s"] by (simp add: refSum_def)

lemma luhn_byte_reference:
  assumes "length s < 2 ^ 54"
  shows "luhnAlgorithm s = Some (refSum byteOffset s mod 10 = 0)"
proof -
  have "sumN False (rev s) \<le> 501 * length s"
    using sumN_le [of False "rev s"] by simp
  also have "\<dots> < 2 ^ 63"
    using assms by simp
  finally have "(goRem (of_nat (sumN False (rev s))) 10 = 0) = (sumN False (rev s) mod 10 = 0)"
    by (rule goRem_of_nat)
  moreover have "refSum byteOffset s mod 10 = int (sumN False (rev s) mod 10)"
    by (simp add: refSum_nat zmod_int)
  then have "(refSum byteOffset s mod 10 = 0) = (sumN False (rev s) mod 10 = 0)"
    by (simp only: of_nat_eq_0_iff)
  ultimately show ?thesis
    by (simp add: luhnAlgorithm_sum)
qed

lemma byteOffset_above:
  assumes "(of_char CHR ''0'' :: nat) \<le> of_char c"
  shows "byteOffset c = charOffset c"
proof -
  have lt: "(of_char c :: nat) < 256" by (rule nat_of_char_less_256)
  have eq: "(of_char c :: int) = int (of_char c)" by (simp add: of_nat_of_char)
  have z: "(of_char CHR ''0'' :: int) = 48" by simp
  from assms have "(48::nat) \<le> of_char c" by simp
  then have "0 \<le> charOffset c"
    unfolding charOffset_def eq z by linarith
  moreover from lt have "charOffset c < 256"
    unfolding charOffset_def eq z by linarith
  ultimately show ?thesis
    by (simp add: byteOffset_def)
qed

lemma refSum_cong:
  assumes "\<forall>c\<in>set s. f c = g c"
  shows "refSum f s = refSum g s"
proof -
  have "map (\<lambda>(p, c). refTerm f p c) (zip [1 ..< Suc (length s)] (rev s))
      = map (\<lambda>(p, c). refTerm g p c) (zip [1 ..< Suc (length s)] (rev s))"
  proof (rule map_cong [OF refl])
    fix x
    assume x: "x \<in> set (zip [1 ..< Suc (length s)] (rev s))"
    obtain p c where pc: "x = (p, c)" by (cases x)
    with x have "c \<in> set (rev s)" by (auto dest: set_zip_rightD)
    with assms have "f c = g c" by simp
    then show "(case x of (p, c) \<Rightarrow> refTerm f p c) = (case x of (p, c) \<Rightarrow> refTerm g p c)"
      by (simp add: pc refTerm_def)
  qed
  then show ?thesis
    by (simp only: refSum_def)
qed

lemma luhnAlgorithm_returns: "\<exists>b. luhnAlgorithm s = Some b"
  by (simp add: luhnAlgorithm_sum)

lemma sumN_snoc_zero: "sumN f (cs @ [CHR ''0'']) = sumN f cs"
  by (induction cs arbitrary: f) (simp_all add: stepN_def digitN_def)

lemma sumN_zeros: "set cs \<subseteq> {CHR ''0''} \<Longrightarrow> sumN f cs = 0"
  by (induction cs arbitrary: f) (simp_all add: stepN_def digitN_def)

lemma sint_digitOf: "sint (digitOf c) = int (digitN c)"
proof -
  have "digitN c < 2 ^ 63"
    using digitN_le [of c] by simp
  then show ?thesis
    unfolding digitOf_nat by (rule sint_of_nat64)
qed

lemma digitOf_byteOffset: "(\<lambda>c. sint (digitOf c)) = byteOffset"
  by (simp add: fun_eq_iff sint_digitOf byteOffset_nat)

lemma digitN_cases:
  "int (digitN c) = (if (48::int) \<le> of_char c then of_char c - 48 else of_char c + 208)"
proof -
  have lt: "(of_char c :: nat) < 256" by (rule nat_of_char_less_256)
  have eq: "(of_char c :: int) = int (of_char c)" by (simp add: of_nat_of_char)
  show ?thesis
  proof (cases "(48::nat) \<le> of_char c")
    case True
    then obtain k where k: "(of_char c :: nat) = 48 + k"
      using le_Suc_ex by blast
    with lt have "k < 208" by simp
    then have "digitN c = k"
      unfolding digitN_def k by simp
    then show ?thesis
      unfolding eq k by simp
  next
    case False
    then have "(of_char c :: nat) + 208 < 256" by simp
    then have "digitN c = of_char c + 208"
      unfolding digitN_def by simp
    then show ?thesis
      unfolding eq using False by simp
  qed
qed

lemma luhn_single: "luhnAlgorithm [c] = Some (sint (digitOf c) mod 10 = 0)"
proof -
  have "digitN c < 2 ^ 63"
    using digitN_le [of c] by simp
  then have "(goRem (of_nat (digitN c)) 10 = 0) = (digitN c mod 10 = 0)"
    by (rule goRem_of_nat)
  moreover have "(int (digitN c) mod 10 = 0) = (digitN c mod 10 = 0)"
    by (simp only: zmod_int [symmetric] of_nat_numeral [symmetric, where ?'a = int]
        of_nat_eq_0_iff)
  ultimately show ?thesis
    by (simp add: luhnAlgorithm_sum stepN_def sint_digitOf)
qed

section \<open>The branches of the handler\<close>

lemma httpError_fresh:
  "statusCode (httpError newResponseWriter msg code) = Some code"
  "header (httpError newResponseWriter msg code) ''Content-Type''
     = Some ''text/plain; charset=utf-8''"
  "written (httpError newResponseWriter msg code) = msg"
  by (simp_all add: httpError_def writerWrite_def writeHeader_def headerSet_def
      newResponseWriter_def Let_def)

lemma write_json_fresh:
  "statusCode (writerWrite (headerSet newResponseWriter ''Content-Type'' ''application/json'') js)
     = Some 200"
  "header (writerWrite (headerSet newResponseWriter ''Content-Type'' ''application/json'') js)
     ''Content-Type'' = Some ''application/json''"
  "written (writerWrite (headerSet newResponseWriter ''Content-Type'' ''application/json'') js)
     = js"
  by (simp_all add: writerWrite_def writeHeader_def headerSet_def newResponseWriter_def
      Let_def StatusOK_def)

lemma handler_not_post:
  "Method request \<noteq> ''POST'' \<Longrightarrow>
   creditCardValidator decode marshal writer request
     = Some (httpError writer ''Invalid request method'' 405, request)"
  by (simp add: creditCardValidator_def MethodPost_def StatusMethodNotAllowed_def)

lemma handler_bad_json:
  "Method request = ''POST'' \<Longrightarrow>
   decode (Body request) \<lparr>Number = ''''\<rparr> = (Some e, cardNumber, body) \<Longrightarrow>
   creditCardValidator decode marshal writer request
     = Some (httpError writer ''Invalid JSON payload'' 400, request\<lparr>Body := body\<rparr>)"
  by (simp add: creditCardValidator_def MethodPost_def StatusBadRequest_def)

lemma handler_marshal_fails:
  "Method request = ''POST'' \<Longrightarrow>
   decode (Body request) \<lparr>Number = ''''\<rparr> = (None, cardNumber, body) \<Longrightarrow>
   luhnAlgorithm (Number cardNumber) = Some isValid \<Longrightarrow>
   marshal \<lparr>Valid = isValid\<rparr> = Inl e \<Longrightarrow>
   creditCardValidator decode marshal writer request
     = Some (httpError writer ''Error creating response'' 500, request\<lparr>Body := body\<rparr>)"
  by (simp add: creditCardValidator_def MethodPost_def StatusInternalServerError_def)

lemma handler_ok:
  "Method request = ''POST'' \<Longrightarrow>
   decode (Body request) \<lparr>Number = ''''\<rparr> = (None, cardNumber, body) \<Longrightarrow>
   luhnAlgorithm (Number cardNumber) = Some isValid \<Longrightarrow>
   marshal \<lparr>Valid = isValid\<rparr> = Inr jsonResponse \<Longrightarrow>
   creditCardValidator decode marshal writer request
     = Some (writerWrite (headerSet writer ''Content-Type'' ''application/json'') jsonResponse,
             request\<lparr>Body := body\<rparr>)"
  by (simp add: creditCardValidator_def MethodPost_def)

lemma handler_ok_json:
  assumes "Method request = ''POST''"
    and "decode (Body request) \<lparr>Number = ''''\<rparr> = (None, cardNumber, body)"
  shows "\<exists>isValid w.
           luhnAlgorithm (Number cardNumber) = Some isValid
           \<and> creditCardValidator decode jsonMarshal newResponseWriter request
               = Some (w, request\<lparr>Body := body\<rparr>)
           \<and> statusCode w = Some 200
           \<and> header w ''Content-Type'' = Some ''application/json''
           \<and> written w = ''{\"valid\":'' @ (if isValid then ''true'' else ''false'') @ ''}''"
proof -
  obtain isValid where v: "luhnAlgorithm (Number cardNumber) = Some isValid"
    using luhnAlgorithm_returns by blast
  let ?js = "''{\"valid\":'' @ (if isValid then ''true'' else ''false'') @ ''}''"
  have m: "jsonMarshal \<lparr>Valid = isValid\<rparr> = Inr ?js"
    by (simp add: jsonMarshal_def)
  have "creditCardValidator decode jsonMarshal newResponseWriter request
      = Some (writerWrite (headerSet newResponseWriter ''Content-Type'' ''application/json'') ?js,
              request\<lparr>Body := body\<rparr>)"
    using assms v m by (rule handler_ok)
  with v write_json_fresh [of ?js] show ?thesis
    by blast
qed

lemma handler_ok_status:
  assumes "Method request = ''POST''"
    and "decode (Body request) \<lparr>Number = ''''\<rparr> = (None, cardNumber, body)"
  shows "\<exists>w. creditCardValidator decode jsonMarshal newResponseWriter request
               = Some (w, request\<lparr>Body := body\<rparr>)
             \<and> statusCode w = Some 200"
proof -
  have "\<exists>isValid w.
           luhnAlgorithm (Number cardNumber) = Some isValid
           \<and> creditCardValidator decode jsonMarshal newResponseWriter request
               = Some (w, request\<lparr>Body := body\<rparr>)
           \<and> statusCode w = Some 200
           \<and> header w ''Content-Type'' = Some ''application/json''
           \<and> written w = ''{\"valid\":'' @ (if isValid then ''true'' else ''false'') @ ''}''"
    using assms by (rule handler_ok_json)
  then show ?thesis
    by blast
qed

section \<open>Claims about luhnAlgorithm\<close>

text \<open>
  C1, as first stated: for every input string, \<open>luhnAlgorithm\<close> returns true if and only
  if the total of the reference procedure is divisible by 10. That fails where a
  character lies below \<open>'0'\<close>: on \<open>"4003-6000"\<close> the reference total is 10 (the \<open>'-'\<close>
  counts \<open>-3\<close>), and \<open>luhnAlgorithm\<close> returns false (it counts 253, total 266).
\<close>

theorem luhnAlgorithm_reference_counterexample:
  "refTotal ''4003-6000'' = 10
   \<and> refTotal ''4003-6000'' mod 10 = 0
   \<and> luhnAlgorithm ''4003-6000'' = Some False
   \<and> luhnAlgorithm ''4003-6000'' \<noteq> Some (refTotal ''4003-6000'' mod 10 = 0)"
proof -
  have v: "luhnAlgorithm ''4003-6000'' = Some False"
    by code_simp
  have t: "refTotal ''4003-6000'' = 10"
    by code_simp
  show ?thesis
    by (simp add: v t)
qed

text \<open>
  C1, amended. For every input string (shorter than \<open>2 ^ 54\<close> bytes, for which the 64-bit
  total cannot overflow: each character adds 501 at most, and the Go runtime addresses
  \<open>2 ^ 48\<close> bytes of heap), \<open>luhnAlgorithm\<close> returns, and it returns true if and only if
  the total of the reference procedure is divisible by 10, where the digit value of a
  character is its offset from \<open>'0'\<close> taken modulo 256. For a string with no character
  below \<open>'0'\<close>, every string of decimal digits among them, that is the reference
  procedure with the offset itself.
\<close>

theorem luhnAlgorithm_refines_byte_reference:
  assumes "length s < 2 ^ 54"
  shows "luhnAlgorithm s = Some (refSum byteOffset s mod 10 = 0)
         \<and> ((\<forall>c\<in>set s. (of_char CHR ''0'' :: nat) \<le> of_char c)
              \<longrightarrow> luhnAlgorithm s = Some (refTotal s mod 10 = 0))"
proof (intro conjI impI)
  show b: "luhnAlgorithm s = Some (refSum byteOffset s mod 10 = 0)"
    using assms by (rule luhn_byte_reference)
  assume "\<forall>c\<in>set s. (of_char CHR ''0'' :: nat) \<le> of_char c"
  then have "\<forall>c\<in>set s. byteOffset c = charOffset c"
    by (simp add: byteOffset_above)
  then have "refSum byteOffset s = refSum charOffset s"
    by (rule refSum_cong)
  with b show "luhnAlgorithm s = Some (refTotal s mod 10 = 0)"
    by (simp only: refTotal_def)
qed

theorem luhnAlgorithm_refines_byte_reference_witness:
  "length ''4003600000000014'' < 2 ^ 54
   \<and> list_all (\<lambda>c. (of_char CHR ''0'' :: nat) \<le> of_char c) ''4003600000000014''
   \<and> luhnAlgorithm ''4003600000000014''
       = Some (refSum byteOffset ''4003600000000014'' mod 10 = 0)
   \<and> luhnAlgorithm ''4003600000000014'' = Some (refTotal ''4003600000000014'' mod 10 = 0)"
proof -
  have h: "length ''4003600000000014'' < 2 ^ 54"
    by simp
  have l: "list_all (\<lambda>c. (of_char CHR ''0'' :: nat) \<le> of_char c) ''4003600000000014''"
    by simp
  then have d: "\<forall>c\<in>set ''4003600000000014''. (of_char CHR ''0'' :: nat) \<le> of_char c"
    by (simp only: list_all_iff)
  from luhnAlgorithm_refines_byte_reference [OF h] h l d show ?thesis
    by blast
qed

text \<open>
  C5. \<open>luhnAlgorithm("4003600000000014")\<close> returns true, and
  \<open>luhnAlgorithm("4003600000000015")\<close>, the last digit incremented, returns false.
\<close>

theorem luhnAlgorithm_test_vectors:
  "luhnAlgorithm ''4003600000000014'' = Some True
   \<and> luhnAlgorithm ''4003600000000015'' = Some False"
  by code_simp

text \<open>
  C7. \<open>luhnAlgorithm("")\<close> returns true (the total stays 0), and for every string that
  consists of \<open>'0'\<close> characters only, \<open>"0000000000000000"\<close> among them,
  \<open>luhnAlgorithm\<close> returns true, whatever the length of the string.
\<close>

theorem luhnAlgorithm_empty_and_zeros:
  "luhnAlgorithm '''' = Some True
   \<and> luhnAlgorithm ''0000000000000000'' = Some True
   \<and> (\<forall>s. set s \<subseteq> {CHR ''0''} \<longrightarrow> luhnAlgorithm s = Some True)"
proof -
  have zeros: "luhnAlgorithm s = Some True" if "set s \<subseteq> {CHR ''0''}" for s
  proof -
    from that have "set (rev s) \<subseteq> {CHR ''0''}" by simp
    then have "sumN False (rev s) = 0" by (rule sumN_zeros)
    then show ?thesis
      by (simp add: luhnAlgorithm_sum goRem_def)
  qed
  have "luhnAlgorithm '''' = Some True"
    by (rule zeros) simp
  moreover have "luhnAlgorithm ''0000000000000000'' = Some True"
    by (rule zeros) simp
  ultimately show ?thesis
    using zeros by blast
qed

theorem luhnAlgorithm_empty_and_zeros_witness:
  "set ''000'' \<subseteq> {CHR ''0''} \<and> luhnAlgorithm ''000'' = Some True"
  using luhnAlgorithm_empty_and_zeros [THEN conjunct2, THEN conjunct2, THEN spec, of "''000''"]
  by simp

text \<open>
  C10. Prepending a \<open>'0'\<close> character preserves the verdict: for every string \<open>s\<close>,
  \<open>luhnAlgorithm("0" + s) = luhnAlgorithm(s)\<close>.
\<close>

theorem luhnAlgorithm_leading_zero:
  "luhnAlgorithm (CHR ''0'' # s) = luhnAlgorithm s"
  by (simp only: luhnAlgorithm_sum rev.simps sumN_snoc_zero)

text \<open>
  C6, as first stated: the value a character is converted to is its offset from \<open>'0'\<close>.
  That fails for the characters below \<open>'0'\<close>: the byte subtraction wraps, and \<open>'&'\<close>
  (code 38, offset \<open>-10\<close>) is converted to 246. The verdict shows it: the offset is
  divisible by 10, and \<open>luhnAlgorithm("&")\<close> returns false.
\<close>

theorem digitOf_not_offset_counterexample:
  "sint (digitOf CHR ''&'') = 246
   \<and> charOffset CHR ''&'' = - 10
   \<and> sint (digitOf CHR ''&'') \<noteq> charOffset CHR ''&''
   \<and> charOffset CHR ''&'' mod 10 = 0
   \<and> luhnAlgorithm ''&'' = Some False"
proof -
  have "luhnAlgorithm ''&'' = Some False"
    by code_simp
  then show ?thesis
    by (simp add: digitOf_def charOffset_def)
qed

text \<open>
  C6, amended. Each character is converted by subtracting the code of \<open>'0'\<close> as a byte,
  with no validation: the value is the offset from \<open>'0'\<close> for a character at or above
  \<open>'0'\<close> and the offset plus 256 for a character below it. The algorithm proceeds with
  that value at every position: the verdict on a string (shorter than \<open>2 ^ 54\<close> bytes) is
  whether the reference sum over these values is divisible by 10, and a one-character
  string is valid exactly when its value is. The validator returns a boolean for every
  string, and a POST request whose number field decodes to any string \<open>s\<close> is answered
  with status 200.
\<close>

theorem digitOf_unchecked_conversion:
  "sint (digitOf c) = (if (48::int) \<le> of_char c then of_char c - 48 else of_char c + 208)
   \<and> luhnAlgorithm [c] = Some (sint (digitOf c) mod 10 = 0)
   \<and> (length s < 2 ^ 54
        \<longrightarrow> luhnAlgorithm s = Some (refSum (\<lambda>c. sint (digitOf c)) s mod 10 = 0))
   \<and> (\<exists>b. luhnAlgorithm s = Some b)
   \<and> (Method request = ''POST''
        \<and> decode (Body request) \<lparr>Number = ''''\<rparr> = (None, \<lparr>Number = s\<rparr>, body)
      \<longrightarrow> (\<exists>w. creditCardValidator decode jsonMarshal newResponseWriter request
                  = Some (w, request\<lparr>Body := body\<rparr>)
                \<and> statusCode w = Some 200))"
proof (intro conjI impI)
  show "sint (digitOf c) = (if (48::int) \<le> of_char c then of_char c - 48 else of_char c + 208)"
    by (simp only: sint_digitOf digitN_cases)
  show "luhnAlgorithm [c] = Some (sint (digitOf c) mod 10 = 0)"
    by (rule luhn_single)
  show "\<exists>b. luhnAlgorithm s = Some b"
    by (rule luhnAlgorithm_returns)
next
  assume "length s < 2 ^ 54"
  then have "luhnAlgorithm s = Some (refSum byteOffset s mod 10 = 0)"
    by (rule luhn_byte_reference)
  then show "luhnAlgorithm s = Some (refSum (\<lambda>c. sint (digitOf c)) s mod 10 = 0)"
    by (simp only: digitOf_byteOffset)
next
  assume "Method request = ''POST''
      \<and> decode (Body request) \<lparr>Number = ''''\<rparr> = (None, \<lparr>Number = s\<rparr>, body)"
  then have "Method request = ''POST''"
    and "decode (Body request) \<lparr>Number = ''''\<rparr> = (None, \<lparr>Number = s\<rparr>, body)"
    by simp_all
  then show "\<exists>w. creditCardValidator decode jsonMarshal newResponseWriter request
                  = Some (w, request\<lparr>Body := body\<rparr>)
                \<and> statusCode w = Some 200"
    by (rule handler_ok_status)
qed

theorem digitOf_unchecked_conversion_witness:
  "length ''4003-6000'' < 2 ^ 54
   \<and> Method \<lparr>Method = ''POST'', Body = ''{\"number\": \"4003-6000\"}''\<rparr> = ''POST''
   \<and> decodeExample (Body \<lparr>Method = ''POST'', Body = ''{\"number\": \"4003-6000\"}''\<rparr>)
        \<lparr>Number = ''''\<rparr> = (None, \<lparr>Number = ''4003-6000''\<rparr>, [])
   \<and> sint (digitOf CHR ''-'') = 253
   \<and> luhnAlgorithm ''-'' = Some False
   \<and> luhnAlgorithm ''4003-6000''
       = Some (refSum (\<lambda>c. sint (digitOf c)) ''4003-6000'' mod 10 = 0)
   \<and> refSum (\<lambda>c. sint (digitOf c)) ''4003-6000'' = 266
   \<and> (\<exists>b. luhnAlgorithm ''4003-6000'' = Some b)
   \<and> (\<exists>w. creditCardValidator decodeExample jsonMarshal newResponseWriter
              \<lparr>Method = ''POST'', Body = ''{\"number\": \"4003-6000\"}''\<rparr>
            = Some (w, \<lparr>Method = ''POST'', Body = []\<rparr>)
          \<and> statusCode w = Some 200)"
proof -
  have t: "refSum (\<lambda>c. sint (digitOf c)) ''4003-6000'' = 266"
    by code_simp
  have v1: "sint (digitOf CHR ''-'') = 253"
    by (simp add: digitOf_def)
  have v2: "luhnAlgorithm ''-'' = Some False"
    by code_simp
  have h1: "length ''4003-6000'' < 2 ^ 54"
    by simp
  have h2: "Method \<lparr>Method = ''POST'', Body = ''{\"number\": \"4003-6000\"}''\<rparr> = ''POST''"
    by simp
  have h3: "decodeExample (Body \<lparr>Method = ''POST'', Body = ''{\"number\": \"4003-6000\"}''\<rparr>)
        \<lparr>Number = ''''\<rparr> = (None, \<lparr>Number = ''4003-6000''\<rparr>, [])"
    by (simp add: decodeExample_def)
  note inst = digitOf_unchecked_conversion [of "CHR ''-''" "''4003-6000''"
        "\<lparr>Method = ''POST'', Body = ''{\"number\": \"4003-6000\"}''\<rparr>" decodeExample "[]"]
  from inst h1 have a: "luhnAlgorithm ''4003-6000''
       = Some (refSum (\<lambda>c. sint (digitOf c)) ''4003-6000'' mod 10 = 0)"
    by blast
  from inst have b: "\<exists>b. luhnAlgorithm ''4003-6000'' = Some b"
    by blast
  from inst h2 h3 have "\<exists>w. creditCardValidator decodeExample jsonMarshal newResponseWriter
              \<lparr>Method = ''POST'', Body = ''{\"number\": \"4003-6000\"}''\<rparr>
            = Some (w, \<lparr>Method = ''POST'', Body = ''{\"number\": \"4003-6000\"}''\<rparr>
                         \<lparr>Body := []\<rparr>)
          \<and> statusCode w = Some 200"
    by blast
  then have c: "\<exists>w. creditCardValidator decodeExample jsonMarshal newResponseWriter
              \<lparr>Method = ''POST'', Body = ''{\"number\": \"4003-6000\"}''\<rparr>
            = Some (w, \<lparr>Method = ''POST'', Body = []\<rparr>)
          \<and> statusCode w = Some 200"
    by simp
  from h1 h2 h3 v1 v2 a t b c show ?thesis
    by (intro conjI)
qed

section \<open>Claims about creditCardValidator\<close>

text \<open>
  C2. For every POST request whose body decodes into the structure with the string field
  \<open>number\<close>, the handler responds with status 200, the header Content-Type set to
  application/json and the body \<open>{"valid": b}\<close>, where \<open>b\<close> is what \<open>luhnAlgorithm\<close>
  returns on the decoded number; a checksum failure is the body with \<open>false\<close> and still
  status 200.
\<close>

theorem creditCardValidator_success:
  assumes "Method request = ''POST''"
    and "decode (Body request) \<lparr>Number = ''''\<rparr> = (None, cardNumber, body)"
  shows "\<exists>isValid w.
           luhnAlgorithm (Number cardNumber) = Some isValid
           \<and> creditCardValidator decode jsonMarshal newResponseWriter request
               = Some (w, request\<lparr>Body := body\<rparr>)
           \<and> statusCode w = Some 200
           \<and> header w ''Content-Type'' = Some ''application/json''
           \<and> written w = ''{\"valid\":'' @ (if isValid then ''true'' else ''false'') @ ''}''"
  using assms by (rule handler_ok_json)

theorem creditCardValidator_success_witness:
  "Method \<lparr>Method = ''POST'', Body = ''{\"number\": \"4003600000000015\"}''\<rparr> = ''POST''
   \<and> decodeExample (Body \<lparr>Method = ''POST'', Body = ''{\"number\": \"4003600000000015\"}''\<rparr>)
        \<lparr>Number = ''''\<rparr> = (None, \<lparr>Number = ''4003600000000015''\<rparr>, [])
   \<and> (\<exists>w. creditCardValidator decodeExample jsonMarshal newResponseWriter
              \<lparr>Method = ''POST'', Body = ''{\"number\": \"4003600000000015\"}''\<rparr>
            = Some (w, \<lparr>Method = ''POST'', Body = []\<rparr>)
          \<and> statusCode w = Some 200
          \<and> header w ''Content-Type'' = Some ''application/json''
          \<and> written w = ''{\"valid\":false}'')"
proof -
  have v: "luhnAlgorithm ''4003600000000015'' = Some False"
    by code_simp
  show ?thesis
    using creditCardValidator_success
      [of "\<lparr>Method = ''POST'', Body = ''{\"number\": \"4003600000000015\"}''\<rparr>"
        decodeExample "\<lparr>Number = ''4003600000000015''\<rparr>" "[]"]
    by (auto simp add: decodeExample_def v)
qed

text \<open>
  C3. For every request whose method is not POST, the handler responds with status 405
  and the plain-text body \<open>Invalid request method\<close> and returns at once: the body of the
  request is left unread, and neither the decoder nor the serialiser has any part in
  the response.
\<close>

theorem creditCardValidator_method_not_allowed:
  assumes "Method request \<noteq> ''POST''"
  shows "\<exists>w. creditCardValidator decode marshal newResponseWriter request = Some (w, request)
              \<and> statusCode w = Some 405
              \<and> header w ''Content-Type'' = Some ''text/plain; charset=utf-8''
              \<and> written w = ''Invalid request method''"
proof -
  have "creditCardValidator decode marshal newResponseWriter request
      = Some (httpError newResponseWriter ''Invalid request method'' 405, request)"
    using assms by (rule handler_not_post)
  then show ?thesis
    using httpError_fresh [of "''Invalid request method''" 405] by simp
qed

theorem creditCardValidator_method_not_allowed_witness:
  "Method \<lparr>Method = ''GET'', Body = ''{\"number\": \"4003600000000015\"}''\<rparr> \<noteq> ''POST''
   \<and> (\<exists>w. creditCardValidator decodeExample jsonMarshal newResponseWriter
              \<lparr>Method = ''GET'', Body = ''{\"number\": \"4003600000000015\"}''\<rparr>
            = Some (w, \<lparr>Method = ''GET'', Body = ''{\"number\": \"4003600000000015\"}''\<rparr>)
          \<and> statusCode w = Some 405
          \<and> header w ''Content-Type'' = Some ''text/plain; charset=utf-8''
          \<and> written w = ''Invalid request method'')"
  using creditCardValidator_method_not_allowed
    [of "\<lparr>Method = ''GET'', Body = ''{\"number\": \"4003600000000015\"}''\<rparr>"
      decodeExample jsonMarshal]
  by simp

text \<open>
  C4. For every POST request whose body fails to decode into the structure with the field
  \<open>number\<close>, the handler responds with status 400 and the plain-text body
  \<open>Invalid JSON payload\<close> and returns; the validator and the serialiser have no part in
  the response.
\<close>

theorem creditCardValidator_bad_request:
  assumes "Method request = ''POST''"
    and "decode (Body request) \<lparr>Number = ''''\<rparr> = (Some e, cardNumber, body)"
  shows "\<exists>w. creditCardValidator decode marshal newResponseWriter request
                = Some (w, request\<lparr>Body := body\<rparr>)
              \<and> statusCode w = Some 400
              \<and> header w ''Content-Type'' = Some ''text/plain; charset=utf-8''
              \<and> written w = ''Invalid JSON payload''"
proof -
  have "creditCardValidator decode marshal newResponseWriter request
      = Some (httpError newResponseWriter ''Invalid JSON payload'' 400,
              request\<lparr>Body := body\<rparr>)"
    using assms by (rule handler_bad_json)
  then show ?thesis
    using httpError_fresh [of "''Invalid JSON payload''" 400] by simp
qed

theorem creditCardValidator_bad_request_witness:
  "Method \<lparr>Method = ''POST'', Body = ''not json''\<rparr> = ''POST''
   \<and> decodeExample (Body \<lparr>Method = ''POST'', Body = ''not json''\<rparr>) \<lparr>Number = ''''\<rparr>
       = (Some JsonError, \<lparr>Number = ''''\<rparr>, [])
   \<and> (\<exists>w. creditCardValidator decodeExample jsonMarshal newResponseWriter
              \<lparr>Method = ''POST'', Body = ''not json''\<rparr>
            = Some (w, \<lparr>Method = ''POST'', Body = []\<rparr>)
          \<and> statusCode w = Some 400
          \<and> header w ''Content-Type'' = Some ''text/plain; charset=utf-8''
          \<and> written w = ''Invalid JSON payload'')"
  using creditCardValidator_bad_request
    [of "\<lparr>Method = ''POST'', Body = ''not json''\<rparr>" decodeExample JsonError
      "\<lparr>Number = ''''\<rparr>" "[]" jsonMarshal]
  by (simp add: decodeExample_def)

text \<open>
  C9. If serialising the response object fails, the handler responds with status 500 and
  the plain-text body \<open>Error creating response\<close> and returns. Serialising the single
  boolean field does not fail, so with the JSON serialiser no request is answered with
  status 500.
\<close>

theorem creditCardValidator_internal_error:
  "(Method request = ''POST''
      \<and> decode (Body request) \<lparr>Number = ''''\<rparr> = (None, cardNumber, body)
      \<and> luhnAlgorithm (Number cardNumber) = Some isValid
      \<and> marshal \<lparr>Valid = isValid\<rparr> = Inl e
    \<longrightarrow> (\<exists>w. creditCardValidator decode marshal newResponseWriter request
                = Some (w, request\<lparr>Body := body\<rparr>)
              \<and> statusCode w = Some 500
              \<and> header w ''Content-Type'' = Some ''text/plain; charset=utf-8''
              \<and> written w = ''Error creating response''))
   \<and> (\<exists>bytes. jsonMarshal r = Inr bytes)
   \<and> (\<exists>w r'. creditCardValidator decode jsonMarshal newResponseWriter request = Some (w, r')
              \<and> statusCode w \<noteq> Some 500)"
proof (intro conjI impI)
  assume "Method request = ''POST''
      \<and> decode (Body request) \<lparr>Number = ''''\<rparr> = (None, cardNumber, body)
      \<and> luhnAlgorithm (Number cardNumber) = Some isValid
      \<and> marshal \<lparr>Valid = isValid\<rparr> = Inl e"
  then have "Method request = ''POST''"
    and "decode (Body request) \<lparr>Number = ''''\<rparr> = (None, cardNumber, body)"
    and "luhnAlgorithm (Number cardNumber) = Some isValid"
    and "marshal \<lparr>Valid = isValid\<rparr> = Inl e"
    by simp_all
  then have "creditCardValidator decode marshal newResponseWriter request
      = Some (httpError newResponseWriter ''Error creating response'' 500,
              request\<lparr>Body := body\<rparr>)"
    by (rule handler_marshal_fails)
  then show "\<exists>w. creditCardValidator decode marshal newResponseWriter request
                = Some (w, request\<lparr>Body := body\<rparr>)
              \<and> statusCode w = Some 500
              \<and> header w ''Content-Type'' = Some ''text/plain; charset=utf-8''
              \<and> written w = ''Error creating response''"
    using httpError_fresh [of "''Error creating response''" 500] by simp
next
  show "\<exists>bytes. jsonMarshal r = Inr bytes"
    by (simp add: jsonMarshal_def)
next
  show "\<exists>w r'. creditCardValidator decode jsonMarshal newResponseWriter request = Some (w, r')
              \<and> statusCode w \<noteq> Some 500"
  proof (cases "Method request = ''POST''")
    case False
    then have "creditCardValidator decode jsonMarshal newResponseWriter request
        = Some (httpError newResponseWriter ''Invalid request method'' 405, request)"
      by (rule handler_not_post)
    then show ?thesis
      using httpError_fresh(1) [of "''Invalid request method''" 405] by simp
  next
    case True
    obtain err cardNumber body
      where d: "decode (Body request) \<lparr>Number = ''''\<rparr> = (err, cardNumber, body)"
      by (rule prod_cases3)
    show ?thesis
    proof (cases err)
      case None
      with d have "decode (Body request) \<lparr>Number = ''''\<rparr> = (None, cardNumber, body)"
        by simp
      with True have "\<exists>w. creditCardValidator decode jsonMarshal newResponseWriter request
               = Some (w, request\<lparr>Body := body\<rparr>)
             \<and> statusCode w = Some 200"
        by (rule handler_ok_status)
      then obtain w where "creditCardValidator decode jsonMarshal newResponseWriter request
               = Some (w, request\<lparr>Body := body\<rparr>)" and "statusCode w = Some 200"
        by blast
      then show ?thesis
        by simp
    next
      case (Some e)
      with d have "decode (Body request) \<lparr>Number = ''''\<rparr> = (Some e, cardNumber, body)"
        by simp
      with True have "creditCardValidator decode jsonMarshal newResponseWriter request
          = Some (httpError newResponseWriter ''Invalid JSON payload'' 400,
                  request\<lparr>Body := body\<rparr>)"
        by (rule handler_bad_json)
      then show ?thesis
        using httpError_fresh(1) [of "''Invalid JSON payload''" 400] by simp
    qed
  qed
qed

theorem creditCardValidator_internal_error_witness:
  "Method \<lparr>Method = ''POST'', Body = ''{\"number\": \"4003600000000015\"}''\<rparr> = ''POST''
   \<and> decodeExample (Body \<lparr>Method = ''POST'', Body = ''{\"number\": \"4003600000000015\"}''\<rparr>)
        \<lparr>Number = ''''\<rparr> = (None, \<lparr>Number = ''4003600000000015''\<rparr>, [])
   \<and> luhnAlgorithm (Number \<lparr>Number = ''4003600000000015''\<rparr>) = Some False
   \<and> (\<lambda>r. Inl JsonError) \<lparr>Valid = False\<rparr> = (Inl JsonError :: jsonError + string)
   \<and> (\<exists>w. creditCardValidator decodeExample (\<lambda>r. Inl JsonError) newResponseWriter
              \<lparr>Method = ''POST'', Body = ''{\"number\": \"4003600000000015\"}''\<rparr>
            = Some (w, \<lparr>Method = ''POST'', Body = []\<rparr>)
          \<and> statusCode w = Some 500
          \<and> header w ''Content-Type'' = Some ''text/plain; charset=utf-8''
          \<and> written w = ''Error creating response'')"
proof -
  have v: "luhnAlgorithm ''4003600000000015'' = Some False"
    by code_simp
  show ?thesis
    using creditCardValidator_internal_error
      [of "\<lparr>Method = ''POST'', Body = ''{\"number\": \"4003600000000015\"}''\<rparr>"
        decodeExample "\<lparr>Number = ''4003600000000015''\<rparr>" "[]" False
        "\<lambda>r. Inl JsonError" JsonError, THEN conjunct1]
    by (simp add: decodeExample_def v)
qed

end
